theory Spec2Isabelle
  imports Main
begin

section \<open>The action \<open>run\<close> of src/main.js\<close>

text \<open>
  The action is one asynchronous procedure, \<open>run\<close>. Everything it does is an effect:
  it reads inputs, logs, calls the remote command service, waits, sets outputs and
  signals failure. The model returns the sequence of these effects as a list of
  events, in program order. The answers of the remote service are parameters of the
  model: the result of the one submission, and the result of the k-th status check.
  A rejected promise or a thrown error is \<open>Inl message\<close>.

  A \<open>string\<close> of the model is the UTF-8 encoding of the JavaScript string: a character
  outside ASCII is two or three bytes.
\<close>

subsection \<open>JavaScript values\<close>

text \<open>
  A number as \<open>parseInt\<close> returns it: NaN, a double whose value is an integer (\<open>Num\<close>,
  which does not tell \<open>-0\<close> from \<open>0\<close>), or an infinity.
\<close>

datatype jsnum = NaN | Num int | PlusInfinity | MinusInfinity

text \<open>A value handed to \<open>core.setOutput\<close>: undefined, a string or an integer.\<close>

datatype jsval = JUndefined | JString string | JNumber int

definition str_val :: "string option \<Rightarrow> jsval" where
  "str_val s = (case s of None \<Rightarrow> JUndefined | Some x \<Rightarrow> JString x)"

definition num_val :: "int option \<Rightarrow> jsval" where
  "num_val n = (case n of None \<Rightarrow> JUndefined | Some x \<Rightarrow> JNumber x)"

text \<open>
  The decimal digits of a natural number, and the string of an integer as a template
  literal prints it (for a magnitude below \<open>10^21\<close>).
\<close>

fun string_of_nat :: "nat \<Rightarrow> string" where
  "string_of_nat n =
     (if n < 10 then [''0123456789'' ! n]
      else string_of_nat (n div 10) @ [''0123456789'' ! (n mod 10)])"

declare string_of_nat.simps [simp del]

definition string_of_int :: "int \<Rightarrow> string" where
  "string_of_int i = (if i < 0 then CHR ''-'' # string_of_nat (nat (- i)) else string_of_nat (nat i))"

text \<open>
  A value inside a template literal: \<open>`${x}`\<close> of an undefined value is the text
  \<open>undefined\<close>.
\<close>

definition tmpl_str :: "string option \<Rightarrow> string" where
  "tmpl_str s = (case s of None \<Rightarrow> ''undefined'' | Some x \<Rightarrow> x)"

definition tmpl_num :: "int option \<Rightarrow> string" where
  "tmpl_num n = (case n of None \<Rightarrow> ''undefined'' | Some x \<Rightarrow> string_of_int x)"

text \<open>\<open>x || ''\<close> for a string that may be undefined.\<close>

definition or_empty :: "string option \<Rightarrow> string" where
  "or_empty s = (case s of None \<Rightarrow> [] | Some x \<Rightarrow> x)"

text \<open>
  The message of the TypeError raised by reading property \<open>p\<close> of an undefined value.
\<close>

definition undefined_read :: "string \<Rightarrow> string" where
  "undefined_read p =
     ''Cannot read properties of undefined (reading '' @ [CHR 0x27] @ p @ [CHR 0x27] @ '')''"

subsection \<open>Library functions the action calls\<close>

text \<open>
  White space as \<open>String.prototype.trim\<close> and \<open>parseInt\<close> skip it: the characters
  of the classes WhiteSpace and LineTerminator. In UTF-8 these are the six bytes of
  \<open>is_space1\<close> (tab, line feed, vertical tab, form feed, carriage return, space), the
  two bytes of U+00A0, and the three bytes of U+1680, U+2000 to U+200A, U+2028, U+2029,
  U+202F, U+205F, U+3000 and U+FEFF.
\<close>

definition is_space1 :: "char \<Rightarrow> bool" where
  "is_space1 a = (a \<in> set [CHR 0x09, CHR 0x0A, CHR 0x0B, CHR 0x0C, CHR 0x0D, CHR 0x20])"

definition is_space2 :: "char \<Rightarrow> char \<Rightarrow> bool" where
  "is_space2 a b = (a = CHR 0xC2 \<and> b = CHR 0xA0)"

definition is_space3 :: "char \<Rightarrow> char \<Rightarrow> char \<Rightarrow> bool" where
  "is_space3 a b c =
     ((a = CHR 0xE1 \<and> b = CHR 0x9A \<and> c = CHR 0x80) \<or>
      (a = CHR 0xE2 \<and> b = CHR 0x80 \<and>
         c \<in> set [CHR 0x80, CHR 0x81, CHR 0x82, CHR 0x83, CHR 0x84, CHR 0x85, CHR 0x86, CHR 0x87,
                  CHR 0x88, CHR 0x89, CHR 0x8A, CHR 0xA8, CHR 0xA9, CHR 0xAF]) \<or>
      (a = CHR 0xE2 \<and> b = CHR 0x81 \<and> c = CHR 0x9F) \<or>
      (a = CHR 0xE3 \<and> b = CHR 0x80 \<and> c = CHR 0x80) \<or>
      (a = CHR 0xEF \<and> b = CHR 0xBB \<and> c = CHR 0xBF))"

text \<open>
  \<open>strip p2 p3\<close> removes white space from the front of a string, where \<open>p2\<close> and \<open>p3\<close>
  recognise the characters of two and of three bytes. \<open>trimEnd\<close> runs it on the
  reversed string, with the bytes of a character in reversed order.
\<close>

fun strip :: "(char \<Rightarrow> char \<Rightarrow> bool) \<Rightarrow> (char \<Rightarrow> char \<Rightarrow> char \<Rightarrow> bool) \<Rightarrow> string \<Rightarrow> string" where
  "strip p2 p3 (a # b # c # s) =
     (if is_space1 a then strip p2 p3 (b # c # s)
      else if p2 a b then strip p2 p3 (c # s)
      else if p3 a b c then strip p2 p3 s
      else a # b # c # s)"
| "strip p2 p3 [a, b] =
     (if is_space1 a then strip p2 p3 [b] else if p2 a b then [] else [a, b])"
| "strip p2 p3 [a] = (if is_space1 a then [] else [a])"
| "strip p2 p3 [] = []"

definition trimStart :: "string \<Rightarrow> string" where
  "trimStart s = strip is_space2 is_space3 s"

definition trimEnd :: "string \<Rightarrow> string" where
  "trimEnd s = rev (strip (\<lambda>a b. is_space2 b a) (\<lambda>a b c. is_space3 c b a) (rev s))"

definition trim :: "string \<Rightarrow> string" where
  "trim s = trimEnd (trimStart s)"

text \<open>
  \<open>core.getInput(name, {required})\<close> of the actions toolkit: the value the workflow
  gives the input (the empty string when it gives none); a required input with an empty
  value throws; the value is returned trimmed. The environment is keyed by input name.
\<close>

definition getInput :: "(string \<rightharpoonup> string) \<Rightarrow> string \<Rightarrow> bool \<Rightarrow> string + string" where
  "getInput env name required =
     (let v = (case env name of None \<Rightarrow> [] | Some x \<Rightarrow> x) in
      if required \<and> v = [] then Inl (''Input required and not supplied: '' @ name)
      else Inr (trim v))"

text \<open>
  \<open>parseInt(s)\<close> with no radix: leading white space is skipped, then an optional sign,
  then an optional \<open>0x\<close> prefix choosing radix 16, then the longest run of digits; no
  digit gives NaN. The mathematical value of the digits becomes a double: \<open>to_double\<close>
  rounds a natural number to 53 significant bits, to nearest and on a tie to the even
  one, and gives \<open>None\<close> where the rounded value is \<open>2^1024\<close> or more, which is an
  infinity.
\<close>

definition digit_value :: "char \<Rightarrow> nat" where
  "digit_value c = (case map_of (zip ''0123456789abcdefABCDEF''
       [0, 1, 2, 3, 4, 5, 6, 7, 8, 9, 10, 11, 12, 13, 14, 15, 10, 11, 12, 13, 14, 15]) c of
     None \<Rightarrow> 16 | Some d \<Rightarrow> d)"

definition is_digit :: "nat \<Rightarrow> char \<Rightarrow> bool" where
  "is_digit radix c = (digit_value c < radix)"

definition digits_value :: "nat \<Rightarrow> string \<Rightarrow> nat" where
  "digits_value radix ds = foldl (\<lambda>a c. a * radix + digit_value c) 0 ds"

fun bit_length :: "nat \<Rightarrow> nat" where
  "bit_length n = (if n = 0 then 0 else Suc (bit_length (n div 2)))"

declare bit_length.simps [simp del]

definition to_double :: "nat \<Rightarrow> nat option" where
  "to_double n =
     (if n < 2 ^ 53 then Some n
      else
        (let e = bit_length n - 53;
             q = n div 2 ^ e;
             r = n mod 2 ^ e;
             h = 2 ^ (e - 1);
             m = (if h < r \<or> (r = h \<and> odd q) then q + 1 else q)
         in if m * 2 ^ e < 2 ^ 1024 then Some (m * 2 ^ e) else None))"

definition parseInt :: "string \<Rightarrow> jsnum" where
  "parseInt str =
     (let s = trimStart str;
          negative = (case s of c # _ \<Rightarrow> c = CHR ''-'' | [] \<Rightarrow> False);
          s1 = (case s of c # r \<Rightarrow> if c = CHR ''-'' \<or> c = CHR ''+'' then r else s | [] \<Rightarrow> s);
          hex = (case s1 of a # b # _ \<Rightarrow> a = CHR ''0'' \<and> (b = CHR ''x'' \<or> b = CHR ''X'')
                 | _ \<Rightarrow> False);
          radix = (if hex then 16 else 10);
          s2 = (if hex then drop 2 s1 else s1);
          ds = takeWhile (is_digit radix) s2
      in if ds = [] then NaN
         else
           (case to_double (digits_value radix ds) of
              None \<Rightarrow> if negative then MinusInfinity else PlusInfinity
            | Some v \<Rightarrow> Num (if negative then - int v else int v)))"

subsection \<open>Requests, responses and events\<close>

text \<open>
  The object \<open>commandParams\<close>. \<open>Parameters\<close> is an object used as a map from names
  to string lists; the association list keeps the insertion order of its properties.
\<close>

record send_request =
  InstanceIds :: "string list"
  DocumentName :: string
  Parameters :: "(string \<times> string list) list"
  TimeoutSeconds :: jsnum

text \<open>The fields of the two responses that \<open>run\<close> reads; each may be absent.\<close>

record command_info =
  CommandId :: "string option"

record send_response =
  Command :: "command_info option"

record invocation =
  Status :: "string option"
  ResponseCode :: "int option"
  StandardOutputContent :: "string option"
  StandardErrorContent :: "string option"

text \<open>
  The commands sent through the client: the submission, and a status check with
  \<open>CommandId\<close> and \<open>InstanceId\<close>.
\<close>

datatype ssm_command =
    SendCommandCommand send_request
  | GetCommandInvocationCommand "string option" string

text \<open>
  The effects of a run. \<open>Info\<close>, \<open>Warning\<close>, \<open>SetFailed\<close> and \<open>SetOutput\<close> are the
  calls of the actions toolkit; \<open>Send region c\<close> is \<open>ssmClient.send(c)\<close> on the client made
  for \<open>region\<close>; \<open>Wait ms\<close> is a pause of \<open>ms\<close> milliseconds.
\<close>

datatype event =
    Info string
  | Warning string
  | SetFailed string
  | SetOutput string jsval
  | Wait nat
  | Send string ssm_command

text \<open>
  Modelled from the spec: \<open>wait.js\<close>, which \<open>run\<close> imports, is not among the sources.
  \<open>await wait(milliseconds)\<close> is the fixed delay between two status checks: the run
  pauses for that time, and does nothing else.
\<close>

definition wait :: "nat \<Rightarrow> event list" where
  "wait milliseconds = [Wait milliseconds]"

subsection \<open>Reading the inputs (lines 17 to 24)\<close>

record inputs =
  instanceId :: string
  region :: string
  command :: string
  workingDirectory :: string
  timeout :: string

definition read_inputs :: "(string \<rightharpoonup> string) \<Rightarrow> string + inputs" where
  "read_inputs env =
     (case getInput env ''instance-id'' True of Inl e \<Rightarrow> Inl e | Inr i \<Rightarrow>
      case getInput env ''region'' True of Inl e \<Rightarrow> Inl e | Inr r \<Rightarrow>
      case getInput env ''command'' True of Inl e \<Rightarrow> Inl e | Inr c \<Rightarrow>
      case getInput env ''working-directory'' False of Inl e \<Rightarrow> Inl e | Inr w \<Rightarrow>
      case getInput env ''timeout-seconds'' False of Inl e \<Rightarrow> Inl e | Inr t \<Rightarrow>
        Inr \<lparr>instanceId = i, region = r, command = c, workingDirectory = w,
             timeout = (if t \<noteq> [] then t else ''3600'')\<rparr>)"

subsection \<open>The submission request (lines 33 to 45)\<close>

definition commandParams :: "inputs \<Rightarrow> send_request" where
  "commandParams inp =
     (let p = \<lparr>InstanceIds = [instanceId inp],
               DocumentName = ''AWS-RunShellScript'',
               Parameters = [(''commands'', [command inp])],
               TimeoutSeconds = parseInt (timeout inp)\<rparr>
      in if workingDirectory inp \<noteq> []
         then p\<lparr>Parameters := Parameters p @ [(''workingDirectory'', [workingDirectory inp])]\<rparr>
         else p)"

subsection \<open>The poll loop (lines 58 to 83)\<close>

definition maxAttempts :: nat where
  "maxAttempts = 120"

definition keeps_polling :: "string option \<Rightarrow> bool" where
  "keeps_polling status = (status = Some ''InProgress'' \<or> status = Some ''Pending'')"

text \<open>
  The loop with its three variables \<open>status\<close>, \<open>attempts\<close> and
  \<open>lastInvocationResponse\<close>. It returns the events of its iterations and either the
  message of the error that left it (\<open>Inl\<close>) or the final \<open>status\<close> and
  \<open>lastInvocationResponse\<close> (\<open>Inr\<close>).
\<close>

function poll ::
  "string \<Rightarrow> string option \<Rightarrow> string \<Rightarrow> (nat \<Rightarrow> string + invocation) \<Rightarrow>
   string option \<Rightarrow> nat \<Rightarrow> invocation option \<Rightarrow>
   event list \<times> (string + string option \<times> invocation option)" where
  "poll reg cid iid responses status attempts lastInvocationResponse =
     (if keeps_polling status then
        if attempts \<ge> maxAttempts
        then ([], Inl ''Command execution timeout - exceeded maximum wait time'')
        else
          (case responses attempts of
             Inl e \<Rightarrow> (wait 5000 @ [Send reg (GetCommandInvocationCommand cid iid)], Inl e)
           | Inr resp \<Rightarrow>
               (case poll reg cid iid responses (Status resp) (attempts + 1) (Some resp) of
                  (evs, out) \<Rightarrow>
                    (wait 5000 @
                     [Send reg (GetCommandInvocationCommand cid iid),
                      Info (''Command status: '' @ tmpl_str (Status resp))] @ evs, out)))
      else ([], Inr (status, lastInvocationResponse)))"
  by pat_completeness auto
termination
  by (relation "measure (\<lambda>(reg, cid, iid, responses, status, attempts, l). maxAttempts - attempts)")
     auto

declare poll.simps [simp del]

subsection \<open>After the loop (lines 85 to 119)\<close>

text \<open>The last statement (lines 107 to 119): the failure of the state or exit code, or success.\<close>

definition verdict :: "string option \<Rightarrow> int option \<Rightarrow> event" where
  "verdict status statusCode =
     (if status = Some ''Failed''
        then SetFailed (''Command execution failed with status: '' @ tmpl_str status)
      else if status = Some ''TimedOut''
        then SetFailed ''Command execution timed out''
      else if status = Some ''Cancelled''
        then SetFailed ''Command execution was cancelled''
      else if statusCode \<noteq> Some 0
        then SetFailed (''Command exited with non-zero status code: '' @
                        tmpl_num statusCode @ '', status: '' @ tmpl_str status)
      else Info (''Command completed successfully with status: '' @ tmpl_str status))"

text \<open>
  Lines 85 to 119. Reading a field of an undefined \<open>lastInvocationResponse\<close> throws.
\<close>

definition report ::
  "string option \<Rightarrow> string option \<Rightarrow> invocation option \<Rightarrow> event list \<times> string option" where
  "report commandId status lastInvocationResponse =
     (case lastInvocationResponse of
        None \<Rightarrow> ([], Some (undefined_read ''StandardOutputContent''))
      | Some resp \<Rightarrow>
          (let stdout = or_empty (StandardOutputContent resp);
               stderr = or_empty (StandardErrorContent resp);
               statusCode = ResponseCode resp
           in ((if stdout \<noteq> [] then [Info stdout] else []) @
               (if stderr \<noteq> [] then [Warning stderr, SetFailed ''Stderr detected''] else []) @
               [SetOutput ''stdout'' (JString stdout),
                SetOutput ''stderr'' (JString stderr),
                SetOutput ''status'' (str_val status),
                SetOutput ''status-code'' (num_val statusCode),
                SetOutput ''command-id'' (str_val commandId)] @
               [verdict status statusCode],
               None)))"

subsection \<open>The client (line 30)\<close>

text \<open>
  \<open>new SSMClient({ region })\<close> of the AWS SDK: the constructor resolves the region of its
  configuration and throws for an empty one. The client is known by its region.
\<close>

definition SSMClient :: "string \<Rightarrow> string + string" where
  "SSMClient reg = (if reg = [] then Inl ''Region is missing'' else Inr reg)"

subsection \<open>The whole run (lines 14 to 124)\<close>

text \<open>
  The body of the \<open>try\<close> block: its events, and the message of the error that left it,
  if one did.
\<close>

definition run_body ::
  "(string \<rightharpoonup> string) \<Rightarrow> string + send_response \<Rightarrow> (nat \<Rightarrow> string + invocation) \<Rightarrow>
   event list \<times> string option" where
  "run_body env send_result responses =
     (case read_inputs env of
        Inl e \<Rightarrow> ([], Some e)
      | Inr inp \<Rightarrow>
          (let logged = [Info (''Running command on instance '' @ instanceId inp @
                               '' in region '' @ region inp),
                         Info (''Command: '' @ command inp)]
           in case SSMClient (region inp) of
                Inl e \<Rightarrow> (logged, Some e)
              | Inr ssmClient \<Rightarrow>
                  (let start = logged @
                         [Info ''Sending command to SSM...'',
                          Send ssmClient (SendCommandCommand (commandParams inp))]
                   in case send_result of
                        Inl e \<Rightarrow> (start, Some e)
                      | Inr sendCommandResponse \<Rightarrow>
                          (case Command sendCommandResponse of
                             None \<Rightarrow> (start, Some (undefined_read ''CommandId''))
                           | Some c \<Rightarrow>
                               (let commandId = CommandId c;
                                    sent = [Info (''Command sent with ID: '' @ tmpl_str commandId),
                                            Info ''Waiting for command to complete...'']
                                in case poll ssmClient commandId (instanceId inp) responses
                                          (Some ''InProgress'') 0 None of
                                     (evs, Inl e) \<Rightarrow> (start @ sent @ evs, Some e)
                                   | (evs, Inr (status, lastInvocationResponse)) \<Rightarrow>
                                       (case report commandId status lastInvocationResponse of
                                          (evs', thrown) \<Rightarrow>
                                            (start @ sent @ evs @ evs', thrown)))))))"

text \<open>\<open>run\<close>: the \<open>try\<close> block, and the \<open>catch\<close> that reports a thrown error.\<close>

definition run ::
  "(string \<rightharpoonup> string) \<Rightarrow> string + send_response \<Rightarrow> (nat \<Rightarrow> string + invocation) \<Rightarrow>
   event list" where
  "run env send_result responses =
     (case run_body env send_result responses of
        (evs, None) \<Rightarrow> evs
      | (evs, Some message) \<Rightarrow> evs @ [SetFailed message])"

subsection \<open>Reading a trace\<close>

text \<open>
  \<open>core.setFailed\<close> sets the exit code of the process to failure, and nothing in the
  action resets it: a run has failed when its trace holds a \<open>SetFailed\<close>.
\<close>

fun is_SetFailed :: "event \<Rightarrow> bool" where
  "is_SetFailed (SetFailed _) = True"
| "is_SetFailed _ = False"

definition failed :: "event list \<Rightarrow> bool" where
  "failed tr = list_ex is_SetFailed tr"

definition failure_messages :: "event list \<Rightarrow> string list" where
  "failure_messages tr = concat (map (\<lambda>e. case e of SetFailed m \<Rightarrow> [m] | _ \<Rightarrow> []) tr)"

fun is_status_check :: "event \<Rightarrow> bool" where
  "is_status_check (Send _ (GetCommandInvocationCommand _ _)) = True"
| "is_status_check _ = False"

definition status_checks :: "event list \<Rightarrow> nat" where
  "status_checks tr = length (filter is_status_check tr)"

definition submissions :: "event list \<Rightarrow> send_request list" where
  "submissions tr =
     concat (map (\<lambda>e. case e of Send _ (SendCommandCommand q) \<Rightarrow> [q] | _ \<Rightarrow> []) tr)"

definition outputs :: "event list \<Rightarrow> (string \<times> jsval) list" where
  "outputs tr = concat (map (\<lambda>e. case e of SetOutput k v \<Rightarrow> [(k, v)] | _ \<Rightarrow> []) tr)"

subsection \<open>The answers of the remote service\<close>

text \<open>
  A status check \<open>continuing\<close> the loop: it returned, and its status is one the loop
  condition names. \<open>stops_at responses n r\<close>: check number \<open>n\<close> (from 0, within the cap)
  is the first that does not, and returned \<open>r\<close>.
\<close>

definition continuing :: "string + invocation \<Rightarrow> bool" where
  "continuing x = (case x of Inl _ \<Rightarrow> False | Inr r \<Rightarrow> keeps_polling (Status r))"

definition stops_at :: "(nat \<Rightarrow> string + invocation) \<Rightarrow> nat \<Rightarrow> invocation \<Rightarrow> bool" where
  "stops_at responses n r =
     (n < maxAttempts \<and> list_all (\<lambda>i. continuing (responses i)) [0..<n] \<and>
      responses n = Inr r \<and> \<not> keeps_polling (Status r))"

subsection \<open>Example inputs\<close>

definition env0 :: "string \<rightharpoonup> string" where
  "env0 = [''instance-id'' \<mapsto> ''i-1'', ''region'' \<mapsto> ''eu'', ''command'' \<mapsto> ''ls'']"

definition inp0 :: inputs where
  "inp0 = \<lparr>instanceId = ''i-1'', region = ''eu'', command = ''ls'', workingDirectory = [],
           timeout = ''3600''\<rparr>"

definition cmd0 :: command_info where
  "cmd0 = \<lparr>CommandId = Some ''c-1''\<rparr>"

definition sent0 :: send_response where
  "sent0 = \<lparr>Command = Some cmd0\<rparr>"

definition answer :: "string \<Rightarrow> int \<Rightarrow> string \<Rightarrow> invocation" where
  "answer st code err =
     \<lparr>Status = Some st, ResponseCode = Some code, StandardOutputContent = Some ''out'',
      StandardErrorContent = Some err\<rparr>"

text \<open>Two checks return Pending, every later one returns \<open>r\<close>.\<close>

definition after_two :: "invocation \<Rightarrow> nat \<Rightarrow> string + invocation" where
  "after_two r k = (if k < 2 then Inr (answer ''Pending'' (- 1) []) else Inr r)"

text \<open>A response that carries neither output stream.\<close>

definition bare :: "string \<Rightarrow> int \<Rightarrow> invocation" where
  "bare st code =
     \<lparr>Status = Some st, ResponseCode = Some code, StandardOutputContent = None,
      StandardErrorContent = None\<rparr>"


text \<open>Every check returns \<open>r\<close>.\<close>

definition always :: "invocation \<Rightarrow> nat \<Rightarrow> string + invocation" where
  "always r k = Inr r"

text \<open>A working directory that is one space.\<close>

definition env_blank_dir :: "string \<rightharpoonup> string" where
  "env_blank_dir = env0(''working-directory'' \<mapsto> '' '')"


subsection \<open>The inputs of the workflow\<close>

text \<open>
  An input is \<open>missing\<close> when the workflow gives it no value or the empty one;
  \<open>input_value\<close> is what \<open>core.getInput\<close> returns for an input that does not throw.
\<close>

definition missing :: "(string \<rightharpoonup> string) \<Rightarrow> string \<Rightarrow> bool" where
  "missing env name = (case env name of None \<Rightarrow> True | Some v \<Rightarrow> v = [])"

definition input_value :: "(string \<rightharpoonup> string) \<Rightarrow> string \<Rightarrow> string" where
  "input_value env name = trim (case env name of None \<Rightarrow> [] | Some v \<Rightarrow> v)"

text \<open>The decimal digits.\<close>

definition decimal :: "char \<Rightarrow> bool" where
  "decimal c = (c \<in> set ''0123456789'')"

section \<open>Lemmas about the model\<close>

subsection \<open>Reading a trace\<close>

lemmas trace_defs =
  failed_def failure_messages_def status_checks_def submissions_def outputs_def wait_def

lemma trace_Nil:
  "failure_messages [] = []" "outputs [] = []" "submissions [] = []" "status_checks [] = 0"
  by (simp_all add: trace_defs)

lemma trace_append:
  "failure_messages (xs @ ys) = failure_messages xs @ failure_messages ys"
  "outputs (xs @ ys) = outputs xs @ outputs ys"
  "submissions (xs @ ys) = submissions xs @ submissions ys"
  "status_checks (xs @ ys) = status_checks xs + status_checks ys"
  by (simp_all add: trace_defs)

lemma trace_Cons:
  "failure_messages (e # es) = (case e of SetFailed m \<Rightarrow> [m] | _ \<Rightarrow> []) @ failure_messages es"
  "outputs (e # es) = (case e of SetOutput k v \<Rightarrow> [(k, v)] | _ \<Rightarrow> []) @ outputs es"
  "submissions (e # es) =
     (case e of Send _ (SendCommandCommand q) \<Rightarrow> [q] | _ \<Rightarrow> []) @ submissions es"
  "status_checks (e # es) = (if is_status_check e then 1 else 0) + status_checks es"
  by (simp_all add: trace_defs)

lemmas trace_simps = trace_Nil trace_append trace_Cons

lemma failed_iff: "failed tr \<longleftrightarrow> failure_messages tr \<noteq> []"
  by (induction tr) (auto simp: trace_defs split: event.splits)

subsection \<open>The poll loop\<close>

text \<open>The loop signals no failure, sets no output and submits nothing.\<close>

lemma poll_quiet:
  "failure_messages (fst (poll reg cid iid rs st a l)) = [] \<and>
   outputs (fst (poll reg cid iid rs st a l)) = [] \<and>
   submissions (fst (poll reg cid iid rs st a l)) = []"
proof (induction reg cid iid rs st a l rule: poll.induct)
  case (1 reg cid iid rs st a l)
  show ?case
  proof (cases "keeps_polling st \<and> a < maxAttempts")
    case False
    then show ?thesis by (auto simp: poll.simps [of reg cid iid rs st a l] trace_defs)
  next
    case True
    show ?thesis
    proof (cases "rs a")
      case (Inl e)
      with True show ?thesis by (simp add: poll.simps [of reg cid iid rs st a l] trace_defs)
    next
      case (Inr x)
      with True 1 show ?thesis
        by (simp add: poll.simps [of reg cid iid rs st a l] trace_defs split: prod.splits)
    qed
  qed
qed

text \<open>From \<open>attempts = a\<close> on, the loop makes at most \<open>maxAttempts - a\<close> status checks.\<close>

lemma poll_bound:
  "status_checks (fst (poll reg cid iid rs st a l)) \<le> maxAttempts - a"
proof (induction reg cid iid rs st a l rule: poll.induct)
  case (1 reg cid iid rs st a l)
  show ?case
  proof (cases "keeps_polling st \<and> a < maxAttempts")
    case False
    then show ?thesis by (auto simp: poll.simps [of reg cid iid rs st a l] trace_defs)
  next
    case True
    show ?thesis
    proof (cases "rs a")
      case (Inl e)
      with True show ?thesis
        by (auto simp add: poll.simps [of reg cid iid rs st a l] trace_defs)
    next
      case (Inr x)
      with True 1 [of x] show ?thesis
        by (auto simp add: poll.simps [of reg cid iid rs st a l] trace_defs split: prod.splits)
    qed
  qed
qed

text \<open>
  If check \<open>n\<close> is the first whose status is neither InProgress nor Pending, the loop
  leaves with that status and response, after the checks \<open>a\<close> to \<open>n\<close>.
\<close>

lemma poll_stops:
  assumes "keeps_polling st" "a \<le> n" "n < maxAttempts"
    and "\<forall>i. a \<le> i \<and> i < n \<longrightarrow> continuing (rs i)"
    and "rs n = Inr r" "\<not> keeps_polling (Status r)"
  shows "snd (poll reg cid iid rs st a l) = Inr (Status r, Some r) \<and>
         status_checks (fst (poll reg cid iid rs st a l)) = Suc n - a"
  using assms
proof (induction "n - a" arbitrary: a st l)
  case 0
  then have "a = n" by simp
  with 0 show ?case
    by (simp add: poll.simps [of reg cid iid rs st n l]
        poll.simps [of reg cid iid rs "Status r" "Suc n" "Some r"] trace_defs)
next
  case (Suc k)
  then have lt: "a < n" by simp
  with Suc.prems have "continuing (rs a)" by simp
  then obtain x where x: "rs a = Inr x" "keeps_polling (Status x)"
    by (auto simp: continuing_def split: sum.splits)
  have "snd (poll reg cid iid rs (Status x) (Suc a) (Some x)) = Inr (Status r, Some r) \<and>
        status_checks (fst (poll reg cid iid rs (Status x) (Suc a) (Some x))) = Suc n - Suc a"
    using Suc.hyps(1) [of "Suc a" "Status x" "Some x"] Suc.hyps(2) Suc.prems x lt by auto
  with Suc.prems x lt show ?case
    by (auto simp add: poll.simps [of reg cid iid rs st a l] trace_defs split: prod.splits)
qed

text \<open>If every check up to the cap continues the loop, the loop throws at the cap.\<close>

lemma poll_times_out:
  assumes "keeps_polling st" "a \<le> maxAttempts"
    and "\<forall>i. a \<le> i \<and> i < maxAttempts \<longrightarrow> continuing (rs i)"
  shows "snd (poll reg cid iid rs st a l) =
           Inl ''Command execution timeout - exceeded maximum wait time'' \<and>
         status_checks (fst (poll reg cid iid rs st a l)) = maxAttempts - a"
  using assms
proof (induction "maxAttempts - a" arbitrary: a st l)
  case 0
  then have "a = maxAttempts" by simp
  with 0 show ?case
    by (simp add: poll.simps [of reg cid iid rs st maxAttempts l] trace_defs)
next
  case (Suc k)
  then have lt: "a < maxAttempts" by simp
  with Suc.prems have "continuing (rs a)" by simp
  then obtain x where x: "rs a = Inr x" "keeps_polling (Status x)"
    by (auto simp: continuing_def split: sum.splits)
  have "snd (poll reg cid iid rs (Status x) (Suc a) (Some x)) =
          Inl ''Command execution timeout - exceeded maximum wait time'' \<and>
        status_checks (fst (poll reg cid iid rs (Status x) (Suc a) (Some x))) = maxAttempts - Suc a"
    using Suc.hyps(1) [of "Suc a" "Status x" "Some x"] Suc.hyps(2) Suc.prems x lt by auto
  with Suc.prems x lt show ?case
    by (auto simp add: poll.simps [of reg cid iid rs st a l] trace_defs split: prod.splits)
qed

text \<open>
  Conversely, a loop that leaves without an error has seen a first check whose status is
  neither InProgress nor Pending, and leaves with that response.
\<close>

lemma poll_returns:
  assumes "snd (poll reg cid iid rs st a l) = Inr (st', l')" "keeps_polling st"
  shows "\<exists>n r. a \<le> n \<and> n < maxAttempts \<and> (\<forall>i. a \<le> i \<and> i < n \<longrightarrow> continuing (rs i)) \<and>
           rs n = Inr r \<and> \<not> keeps_polling (Status r) \<and> st' = Status r \<and> l' = Some r"
  using assms
proof (induction reg cid iid rs st a l rule: poll.induct)
  case (1 reg cid iid rs st a l)
  from 1(2,3) have lt: "a < maxAttempts"
    by (auto simp: poll.simps [of reg cid iid rs st a l] split: if_splits)
  from 1(2,3) lt obtain x where x: "rs a = Inr x"
    by (cases "rs a") (auto simp: poll.simps [of reg cid iid rs st a l])
  from 1(2,3) lt x have rec: "snd (poll reg cid iid rs (Status x) (a + 1) (Some x)) = Inr (st', l')"
    by (auto simp: poll.simps [of reg cid iid rs st a l] split: prod.splits)
  show ?case
  proof (cases "keeps_polling (Status x)")
    case False
    with rec have "st' = Status x" "l' = Some x"
      by (auto simp: poll.simps [of reg cid iid rs "Status x" "Suc a" "Some x"])
    with False x lt show ?thesis by (intro exI [of _ a] exI [of _ x]) auto
  next
    case True
    from 1(1) [OF 1(3) _ x rec True] lt
    obtain n r where n: "a + 1 \<le> n" "n < maxAttempts"
      "\<forall>i. a + 1 \<le> i \<and> i < n \<longrightarrow> continuing (rs i)"
      "rs n = Inr r" "\<not> keeps_polling (Status r)" "st' = Status r" "l' = Some r"
      by auto
    have "\<forall>i. a \<le> i \<and> i < n \<longrightarrow> continuing (rs i)"
    proof (intro allI impI)
      fix i assume "a \<le> i \<and> i < n"
      then consider "i = a" | "a + 1 \<le> i \<and> i < n" by linarith
      then show "continuing (rs i)"
        using n(3) x True by cases (auto simp: continuing_def)
    qed
    with n show ?thesis by (intro exI [of _ n] exI [of _ r]) auto
  qed
qed

lemma stops_atD:
  "stops_at rs n r \<Longrightarrow>
     n < maxAttempts \<and> (\<forall>i. 0 \<le> i \<and> i < n \<longrightarrow> continuing (rs i)) \<and>
     rs n = Inr r \<and> \<not> keeps_polling (Status r)"
  by (auto simp: stops_at_def list_all_iff)

subsection \<open>The report after the loop\<close>

text \<open>What the report signals and sets, and what a run that reaches it does.\<close>

lemma report_failure_messages:
  "failure_messages (fst (report cid (Status r) (Some r))) =
     (if or_empty (StandardErrorContent r) \<noteq> [] then [''Stderr detected''] else []) @
     (if Status r = Some ''Failed'' then [''Command execution failed with status: Failed'']
      else if Status r = Some ''TimedOut'' then [''Command execution timed out'']
      else if Status r = Some ''Cancelled'' then [''Command execution was cancelled'']
      else if ResponseCode r \<noteq> Some 0
        then [''Command exited with non-zero status code: '' @ tmpl_num (ResponseCode r) @
              '', status: '' @ tmpl_str (Status r)]
      else [])"
  by (simp add: report_def verdict_def Let_def trace_defs tmpl_str_def)

lemma report_outputs:
  "outputs (fst (report cid (Status r) (Some r))) =
     [(''stdout'', JString (or_empty (StandardOutputContent r))),
      (''stderr'', JString (or_empty (StandardErrorContent r))),
      (''status'', str_val (Status r)),
      (''status-code'', num_val (ResponseCode r)),
      (''command-id'', str_val cid)]"
  by (simp add: report_def verdict_def Let_def trace_defs)

lemma report_quiet:
  "status_checks (fst (report cid st l)) = 0 \<and> submissions (fst (report cid st l)) = []"
  by (auto simp add: report_def verdict_def Let_def trace_defs split: option.splits)

lemma report_events:
  "fst (report cid (Status r) (Some r)) =
     ((if or_empty (StandardOutputContent r) \<noteq> [] then [Info (or_empty (StandardOutputContent r))]
       else []) @
      (if or_empty (StandardErrorContent r) \<noteq> []
       then [Warning (or_empty (StandardErrorContent r)), SetFailed ''Stderr detected''] else [])) @
     [SetOutput ''stdout'' (JString (or_empty (StandardOutputContent r))),
      SetOutput ''stderr'' (JString (or_empty (StandardErrorContent r))),
      SetOutput ''status'' (str_val (Status r)),
      SetOutput ''status-code'' (num_val (ResponseCode r)),
      SetOutput ''command-id'' (str_val cid)] @
     [verdict (Status r) (ResponseCode r)]"
  by (simp add: report_def Let_def)

subsection \<open>Reading the inputs\<close>

text \<open>
  The inputs are read when no required one is missing; changing the timeout input
  changes the \<open>timeout\<close> field only.
\<close>

lemmas trim_defs =
  trim_def trimStart_def trimEnd_def is_space1_def is_space2_def is_space3_def

lemma trim_Nil: "trim [] = []"
  by (simp add: trim_defs)

lemma read_inputs_Inr:
  "read_inputs env = Inr inp \<longleftrightarrow>
     \<not> missing env ''instance-id'' \<and> \<not> missing env ''region'' \<and> \<not> missing env ''command'' \<and>
     inp = \<lparr>instanceId = input_value env ''instance-id'', region = input_value env ''region'',
            command = input_value env ''command'',
            workingDirectory = input_value env ''working-directory'',
            timeout = (if input_value env ''timeout-seconds'' \<noteq> []
                       then input_value env ''timeout-seconds'' else ''3600'')\<rparr>"
  by (auto simp: read_inputs_def getInput_def missing_def input_value_def Let_def
      split: option.splits)

lemma read_inputs_timeout:
  assumes "read_inputs env = Inr inp"
  shows "read_inputs (env(''timeout-seconds'' := t)) =
           Inr (inp\<lparr>timeout := (if input_value (env(''timeout-seconds'' := t)) ''timeout-seconds'' \<noteq> []
                        then input_value (env(''timeout-seconds'' := t)) ''timeout-seconds''
                        else ''3600'')\<rparr>)"
  using assms unfolding read_inputs_Inr by (simp add: missing_def input_value_def)

lemma read_inputs_env0: "read_inputs env0 = Inr inp0"
  by (simp add: read_inputs_def getInput_def env0_def inp0_def trim_defs)

lemma region_inp0: "region inp0 \<noteq> []"
  by (simp add: inp0_def)

subsection \<open>Runs by the way their loop ends\<close>

text \<open>
  With the inputs read and the submission accepted, a loop that stops at check \<open>n\<close>
  is followed by the report on that check's response; nothing before the report signals
  a failure or sets an output.
\<close>

lemma run_reports:
  assumes "read_inputs env = Inr inp" "send_result = Inr sr" "Command sr = Some c"
    and "stops_at rs n r" and "region inp \<noteq> []"
  shows "\<exists>pre. run env send_result rs = pre @ fst (report (CommandId c) (Status r) (Some r)) \<and>
           failure_messages pre = [] \<and> outputs pre = [] \<and>
           submissions pre = [commandParams inp] \<and> status_checks pre = Suc n"
proof -
  let ?p = "poll (region inp) (CommandId c) (instanceId inp) rs (Some ''InProgress'') 0 None"
  from stops_atD [OF assms(4)]
  have p: "snd ?p = Inr (Status r, Some r)" "status_checks (fst ?p) = Suc n"
    using poll_stops [of "Some ''InProgress''" 0 n rs r "region inp" "CommandId c"
        "instanceId inp" None]
    by (auto simp: keeps_polling_def)
  have q: "failure_messages (fst ?p) = []" "outputs (fst ?p) = []" "submissions (fst ?p) = []"
    using poll_quiet [of "region inp" "CommandId c" "instanceId inp" rs "Some ''InProgress''" 0 None]
    by auto
  obtain evs where evs: "?p = (evs, Inr (Status r, Some r))"
    using p(1) by (cases ?p) auto
  with p q have e: "status_checks evs = Suc n" "failure_messages evs = []" "outputs evs = []"
    "submissions evs = []" by auto
  have "snd (report (CommandId c) (Status r) (Some r)) = None"
    by (simp add: report_def Let_def)
  then obtain evs' where evs': "report (CommandId c) (Status r) (Some r) = (evs', None)"
    by (cases "report (CommandId c) (Status r) (Some r)") auto
  show ?thesis
    using assms(1-3,5) evs evs' e
    by (simp add: run_def run_body_def SSMClient_def Let_def trace_defs)
qed

lemma run_body_returns:
  assumes "read_inputs env = Inr inp" "send_result = Inr sr" "Command sr = Some c"
    and "stops_at rs n r" and "region inp \<noteq> []"
  shows "snd (run_body env send_result rs) = None"
proof -
  let ?p = "poll (region inp) (CommandId c) (instanceId inp) rs (Some ''InProgress'') 0 None"
  from stops_atD [OF assms(4)]
  have "snd ?p = Inr (Status r, Some r)"
    using poll_stops [of "Some ''InProgress''" 0 n rs r "region inp" "CommandId c"
        "instanceId inp" None]
    by (auto simp: keeps_polling_def)
  then obtain evs where evs: "?p = (evs, Inr (Status r, Some r))"
    by (cases ?p) auto
  have "snd (report (CommandId c) (Status r) (Some r)) = None"
    by (simp add: report_def Let_def)
  then obtain evs' where evs': "report (CommandId c) (Status r) (Some r) = (evs', None)"
    by (cases "report (CommandId c) (Status r) (Some r)") auto
  show ?thesis
    using assms(1-3,5) evs evs' by (simp add: run_body_def SSMClient_def Let_def)
qed

lemma run_failure_messages:
  assumes "read_inputs env = Inr inp" "send_result = Inr sr" "Command sr = Some c"
    and "stops_at rs n r" and "region inp \<noteq> []"
  shows "failure_messages (run env send_result rs) =
           failure_messages (fst (report (CommandId c) (Status r) (Some r)))"
  using run_reports [OF assms] by (auto simp: failure_messages_def)

lemma run_outputs:
  assumes "read_inputs env = Inr inp" "send_result = Inr sr" "Command sr = Some c"
    and "stops_at rs n r" and "region inp \<noteq> []"
  shows "outputs (run env send_result rs) =
           outputs (fst (report (CommandId c) (Status r) (Some r)))"
  using run_reports [OF assms] by (auto simp: outputs_def)


text \<open>If every status check up to the cap continues the loop, the run ends by the error of the cap.\<close>

lemma run_times_out:
  assumes "read_inputs env = Inr inp" and "send_result = Inr sr" and "Command sr = Some c"
    and "list_all (\<lambda>i. continuing (rs i)) [0..<maxAttempts]" and "region inp \<noteq> []"
  shows "\<exists>pre. run env send_result rs =
            pre @ [SetFailed ''Command execution timeout - exceeded maximum wait time''] \<and>
          failure_messages pre = [] \<and> outputs pre = [] \<and>
          submissions pre = [commandParams inp] \<and> status_checks pre = maxAttempts"
proof -
  let ?p = "poll (region inp) (CommandId c) (instanceId inp) rs (Some ''InProgress'') 0 None"
  from assms(4) have "\<forall>i. 0 \<le> i \<and> i < maxAttempts \<longrightarrow> continuing (rs i)"
    by (auto simp: list_all_iff)
  then have p: "snd ?p = Inl ''Command execution timeout - exceeded maximum wait time''"
    "status_checks (fst ?p) = maxAttempts"
    using poll_times_out [of "Some ''InProgress''" 0 rs "region inp" "CommandId c"
        "instanceId inp" None]
    by (auto simp: keeps_polling_def)
  have q: "failure_messages (fst ?p) = []" "outputs (fst ?p) = []" "submissions (fst ?p) = []"
    using poll_quiet [of "region inp" "CommandId c" "instanceId inp" rs "Some ''InProgress''" 0 None]
    by auto
  obtain evs where evs: "?p = (evs, Inl ''Command execution timeout - exceeded maximum wait time'')"
    using p(1) by (cases ?p) auto
  with p q have e: "status_checks evs = maxAttempts" "failure_messages evs = []" "outputs evs = []"
    "submissions evs = []" by auto
  show ?thesis
    using assms(1-3,5) evs e
    by (simp add: run_def run_body_def SSMClient_def Let_def trace_defs)
qed

text \<open>A run that ends by a thrown error sets no output.\<close>

lemma thrown_sets_no_output:
  assumes "snd (run_body env send_result rs) = Some e"
  shows "outputs (run env send_result rs) = [] \<and> failure_messages (run env send_result rs) = [e]"
proof (cases "read_inputs env")
  case (Inl x)
  with assms show ?thesis by (simp add: run_def run_body_def trace_simps)
next
  case inp: (Inr inp)
  show ?thesis
  proof (cases "region inp = []")
    case True
    with assms inp show ?thesis
      by (simp add: run_def run_body_def SSMClient_def Let_def trace_simps)
  next
    case reg: False
    show ?thesis
    proof (cases send_result)
      case (Inl x)
      with assms inp reg show ?thesis
        by (simp add: run_def run_body_def SSMClient_def Let_def trace_simps)
    next
      case (Inr sr)
      show ?thesis
      proof (cases "Command sr")
        case None
        with assms inp reg Inr show ?thesis
          by (simp add: run_def run_body_def SSMClient_def Let_def trace_simps)
      next
        case (Some c)
        let ?p = "poll (region inp) (CommandId c) (instanceId inp) rs (Some ''InProgress'') 0 None"
        obtain evs out where p: "?p = (evs, out)" by (cases ?p) auto
        have q: "outputs evs = []" "failure_messages evs = []"
          using poll_quiet [of "region inp" "CommandId c" "instanceId inp" rs
              "Some ''InProgress''" 0 None] p by simp_all
        show ?thesis
        proof (cases out)
          case (Inl x)
          with assms inp reg Inr Some p q show ?thesis
            by (simp add: run_def run_body_def SSMClient_def Let_def trace_simps)
        next
          case x: (Inr x)
          obtain st l where stl: "x = (st, l)" by (cases x) auto
          show ?thesis
          proof (cases l)
            case None
            with assms inp reg Inr Some p q x stl show ?thesis
              by (simp add: run_def run_body_def SSMClient_def report_def Let_def trace_simps)
          next
            case r: (Some r)
            with assms inp reg Inr Some p x stl have False
              by (simp add: run_body_def SSMClient_def report_def Let_def)
            then show ?thesis ..
          qed
        qed
      qed
    qed
  qed
qed

text \<open>Conversely, a run that ends without a thrown error has an accepted submission and a loop that stops.\<close>

lemma run_body_completes:
  assumes "snd (run_body env send_result rs) = None"
  shows "\<exists>inp sr c n r. read_inputs env = Inr inp \<and> region inp \<noteq> [] \<and>
           send_result = Inr sr \<and> Command sr = Some c \<and> stops_at rs n r"
proof (cases "read_inputs env")
  case (Inl x)
  with assms show ?thesis by (simp add: run_body_def)
next
  case inp: (Inr inp)
  show ?thesis
  proof (cases "region inp = []")
    case True
    with assms inp show ?thesis by (simp add: run_body_def SSMClient_def Let_def)
  next
    case reg: False
    show ?thesis
    proof (cases send_result)
      case (Inl x)
      with assms inp reg show ?thesis by (simp add: run_body_def SSMClient_def Let_def)
    next
      case (Inr sr)
      show ?thesis
      proof (cases "Command sr")
        case None
        with assms inp reg Inr show ?thesis by (simp add: run_body_def SSMClient_def Let_def)
      next
        case (Some c)
        let ?p = "poll (region inp) (CommandId c) (instanceId inp) rs (Some ''InProgress'') 0 None"
        obtain evs out where p: "?p = (evs, out)" by (cases ?p) auto
        show ?thesis
        proof (cases out)
          case (Inl x)
          with assms inp reg Inr Some p show ?thesis
            by (simp add: run_body_def SSMClient_def Let_def)
        next
          case x: (Inr x)
          obtain st l where stl: "x = (st, l)" by (cases x) auto
          with p x have "snd ?p = Inr (st, l)" by simp
          from poll_returns [OF this]
          obtain n r where "n < maxAttempts" "\<forall>i. 0 \<le> i \<and> i < n \<longrightarrow> continuing (rs i)"
            "rs n = Inr r" "\<not> keeps_polling (Status r)"
            by (auto simp: keeps_polling_def)
          then have "stops_at rs n r" by (simp add: stops_at_def list_all_iff)
          with inp reg Inr Some show ?thesis by blast
        qed
      qed
    qed
  qed
qed

subsection \<open>Submissions and status checks of any run\<close>

lemma run_submissions:
  assumes "read_inputs env = Inr inp" and "region inp \<noteq> []"
  shows "submissions (run env send_result rs) = [commandParams inp]"
proof -
  let ?start = "[Info (''Running command on instance '' @ instanceId inp @
                              '' in region '' @ region inp),
                        Info (''Command: '' @ command inp),
                        Info ''Sending command to SSM...'',
                        Send (region inp) (SendCommandCommand (commandParams inp))]"
  have s: "submissions ?start = [commandParams inp]" by (simp add: trace_simps)
  have "\<exists>rest. run env send_result rs = ?start @ rest \<and> submissions rest = []"
  proof (cases send_result)
    case (Inl e)
    with assms show ?thesis by (simp add: run_def run_body_def SSMClient_def Let_def trace_simps)
  next
    case (Inr sr)
    show ?thesis
    proof (cases "Command sr")
      case None
      with assms Inr show ?thesis
        by (simp add: run_def run_body_def SSMClient_def Let_def trace_simps)
    next
      case (Some c)
      let ?p = "poll (region inp) (CommandId c) (instanceId inp) rs (Some ''InProgress'') 0 None"
      obtain evs out where p: "?p = (evs, out)" by (cases ?p) auto
      have q: "submissions evs = []"
        using poll_quiet [of "region inp" "CommandId c" "instanceId inp" rs
            "Some ''InProgress''" 0 None] p by simp
      show ?thesis
      proof (cases out)
        case (Inl e)
        with assms Inr Some p q show ?thesis
          by (simp add: run_def run_body_def SSMClient_def Let_def trace_simps)
      next
        case (Inr x)
        obtain st l where x: "x = (st, l)" by (cases x) auto
        obtain evs' thrown where r: "report (CommandId c) st l = (evs', thrown)"
          by (cases "report (CommandId c) st l") auto
        have "submissions evs' = []"
          using report_quiet [of "CommandId c" st l] r by simp
        with assms \<open>send_result = Inr sr\<close> Some p q Inr x r show ?thesis
          by (cases thrown) (simp_all add: run_def run_body_def SSMClient_def Let_def trace_simps)
      qed
    qed
  qed
  then show ?thesis using s by (auto simp: trace_simps)
qed

text \<open>A run whose client cannot be made submits nothing and checks nothing.\<close>

lemma run_no_client:
  assumes "read_inputs env = Inr inp" and "region inp = []"
  shows "submissions (run env send_result rs) = [] \<and> status_checks (run env send_result rs) = 0 \<and>
         outputs (run env send_result rs) = [] \<and>
         failure_messages (run env send_result rs) = [''Region is missing'']"
  using assms by (simp add: run_def run_body_def SSMClient_def Let_def trace_simps)

text \<open>The status checks of a run are those of its poll loop.\<close>

lemma run_status_checks_eq:
  assumes "read_inputs env = Inr inp"
  shows "status_checks (run env send_result rs) =
           (if region inp = [] then 0
            else
              (case send_result of
                 Inl e \<Rightarrow> 0
               | Inr sr \<Rightarrow>
                   (case Command sr of
                      None \<Rightarrow> 0
                    | Some c \<Rightarrow>
                        status_checks (fst (poll (region inp) (CommandId c) (instanceId inp) rs
                           (Some ''InProgress'') 0 None)))))"
proof (cases "region inp = []")
  case True
  with run_no_client [OF assms] show ?thesis by simp
next
  case reg: False
  show ?thesis
  proof (cases send_result)
    case (Inl e)
    with assms reg show ?thesis
      by (simp add: run_def run_body_def SSMClient_def Let_def trace_simps)
  next
    case (Inr sr)
    show ?thesis
    proof (cases "Command sr")
      case None
      with assms reg Inr show ?thesis
        by (simp add: run_def run_body_def SSMClient_def Let_def trace_simps)
    next
      case (Some c)
      let ?p = "poll (region inp) (CommandId c) (instanceId inp) rs (Some ''InProgress'') 0 None"
      obtain evs out where p: "?p = (evs, out)" by (cases ?p) auto
      show ?thesis
      proof (cases out)
        case (Inl e)
        with assms reg Inr Some p show ?thesis
          by (simp add: run_def run_body_def SSMClient_def Let_def trace_simps)
      next
        case (Inr x)
        obtain st l where x: "x = (st, l)" by (cases x) auto
        obtain evs' thrown where r: "report (CommandId c) st l = (evs', thrown)"
          by (cases "report (CommandId c) st l") auto
        have "status_checks evs' = 0"
          using report_quiet [of "CommandId c" st l] r by simp
        with assms reg \<open>send_result = Inr sr\<close> Some p Inr x r show ?thesis
          by (cases thrown) (simp_all add: run_def run_body_def SSMClient_def Let_def trace_simps)
      qed
    qed
  qed
qed

lemma run_status_checks_bound: "status_checks (run env send_result rs) \<le> maxAttempts"
proof (cases "read_inputs env")
  case (Inl e)
  then show ?thesis by (simp add: run_def run_body_def trace_defs)
next
  case (Inr inp)
  show ?thesis
    unfolding run_status_checks_eq [OF Inr]
    using poll_bound [of "region inp" _ "instanceId inp" rs "Some ''InProgress''" 0 None]
    by (auto split: sum.splits option.splits)
qed

lemma run_status_checks_timeout:
  assumes "read_inputs env = Inr inp"
  shows "status_checks (run (env(''timeout-seconds'' := t)) send_result rs) =
         status_checks (run env send_result rs)"
  unfolding run_status_checks_eq [OF assms]
    run_status_checks_eq [OF read_inputs_timeout [OF assms, of t]]
  by (simp split: sum.splits option.splits)

subsection \<open>Decimal strings\<close>

text \<open>
  \<open>parseInt\<close> reads back the decimal string of a natural number, and \<open>trim\<close> leaves
  it as it is.
\<close>

lemma digit_cases:
  assumes "d < (10::nat)"
  shows "d = 0 \<or> d = 1 \<or> d = 2 \<or> d = 3 \<or> d = 4 \<or> d = 5 \<or> d = 6 \<or> d = 7 \<or> d = 8 \<or> d = 9"
  using assms by arith

lemma digit_char:
  assumes "d < 10"
  shows "digit_value (''0123456789'' ! d) = d" and "decimal (''0123456789'' ! d)"
  using digit_cases [OF assms] by (auto simp: digit_value_def decimal_def)

lemma string_of_nat_decimal: "c \<in> set (string_of_nat n) \<Longrightarrow> decimal c"
proof (induction n arbitrary: c rule: string_of_nat.induct)
  case (1 n)
  show ?case
  proof (cases "n < 10")
    case True
    with 1(2) show ?thesis by (auto simp: string_of_nat.simps [of n] digit_char(2))
  next
    case False
    have "decimal (''0123456789'' ! (n mod 10))" by (rule digit_char(2)) simp
    with False 1 show ?thesis
      by (auto simp: string_of_nat.simps [of n])
  qed
qed

lemma string_of_nat_not_Nil: "string_of_nat n \<noteq> []"
  by (simp add: string_of_nat.simps [of n])

lemma digits_value_snoc:
  "digits_value radix (ds @ [c]) = digits_value radix ds * radix + digit_value c"
  by (simp add: digits_value_def)

lemma digits_value_string_of_nat: "digits_value 10 (string_of_nat n) = n"
proof (induction n rule: string_of_nat.induct)
  case (1 n)
  show ?case
  proof (cases "n < 10")
    case True
    then show ?thesis
      by (simp add: string_of_nat.simps [of n] digits_value_def digit_char(1))
  next
    case False
    with 1 show ?thesis
      by (simp add: string_of_nat.simps [of n] digits_value_snoc digit_char(1))
  qed
qed

lemma decimal_facts:
  assumes "decimal c"
  shows "\<not> is_space1 c" "\<not> is_space2 c b" "\<not> is_space2 b c" "\<not> is_space3 c x y"
    "\<not> is_space3 x y c"
    "c \<noteq> CHR ''-''" "c \<noteq> CHR ''+''" "c \<noteq> CHR ''x''" "c \<noteq> CHR ''X''"
    "is_digit 10 c"
proof -
  from assms show "\<not> is_space1 c" "\<not> is_space2 c b" "\<not> is_space2 b c"
    "c \<noteq> CHR ''-''" "c \<noteq> CHR ''+''" "c \<noteq> CHR ''x''" "c \<noteq> CHR ''X''"
    by (auto simp: decimal_def is_space1_def is_space2_def)
  from assms show "\<not> is_space3 c x y" "\<not> is_space3 x y c"
    by (auto simp: decimal_def is_space3_def)
  from assms obtain d where d: "d < length ''0123456789''" "''0123456789'' ! d = c"
    unfolding decimal_def in_set_conv_nth by blast
  from d(1) have "d < 10" by simp
  from digit_char(1) [OF this] d(2) \<open>d < 10\<close> show "is_digit 10 c"
    by (simp add: is_digit_def)
qed

text \<open>A string that does not start with white space is left as it is.\<close>

lemma strip_keeps:
  assumes "\<not> is_space1 a" and "\<And>b. \<not> p2 a b" and "\<And>b c. \<not> p3 a b c"
  shows "strip p2 p3 (a # s) = a # s"
proof (cases s)
  case Nil
  with assms show ?thesis by simp
next
  case s: (Cons b t)
  show ?thesis
  proof (cases t)
    case Nil
    with assms s show ?thesis by simp
  next
    case (Cons c u)
    with assms s show ?thesis by simp
  qed
qed

lemma trimStart_decimal: "decimal a \<Longrightarrow> trimStart (a # s) = a # s"
  unfolding trimStart_def by (rule strip_keeps) (simp_all add: decimal_facts)

lemma trimEnd_decimal:
  assumes "decimal a"
  shows "trimEnd (s @ [a]) = s @ [a]"
proof -
  have "strip (\<lambda>a b. is_space2 b a) (\<lambda>a b c. is_space3 c b a) (a # rev s) = a # rev s"
    by (rule strip_keeps) (simp_all add: decimal_facts [OF assms])
  then show ?thesis by (simp add: trimEnd_def)
qed

lemma trim_decimal:
  assumes "\<forall>c \<in> set ds. decimal c"
  shows "trim ds = ds"
proof (cases ds)
  case Nil
  then show ?thesis by (simp add: trim_Nil)
next
  case (Cons a s)
  with assms have "decimal a" by simp
  then have st: "trimStart ds = ds" using Cons by (simp add: trimStart_decimal)
  from Cons obtain t b where tb: "ds = t @ [b]"
    by (metis list.distinct(1) rev_exhaust)
  with assms have "decimal b" by simp
  then have "trimEnd ds = ds" unfolding tb by (rule trimEnd_decimal)
  with st show ?thesis by (simp add: trim_def)
qed

lemma parseInt_decimal:
  assumes "ds \<noteq> []" "\<forall>c \<in> set ds. decimal c"
  shows "parseInt ds =
           (case to_double (digits_value 10 ds) of
              None \<Rightarrow> PlusInfinity
            | Some v \<Rightarrow> Num (int v))"
proof -
  obtain a rest where ds: "ds = a # rest" using assms(1) by (cases ds) auto
  have a: "decimal a" using assms(2) ds by simp
  have sp: "trimStart ds = ds" using ds trimStart_decimal [OF a] by simp
  have hex: "\<not> (case ds of a # b # _ \<Rightarrow> a = CHR ''0'' \<and> (b = CHR ''x'' \<or> b = CHR ''X'')
                 | _ \<Rightarrow> False)"
  proof (cases rest)
    case Nil
    with ds show ?thesis by simp
  next
    case (Cons b rest')
    with assms(2) ds have "decimal b" by simp
    from decimal_facts(8,9) [OF this] ds Cons show ?thesis by simp
  qed
  have tw: "takeWhile (is_digit 10) ds = ds"
    using assms(2) decimal_facts(10) by (simp add: takeWhile_eq_all_conv)
  show ?thesis
    unfolding parseInt_def sp Let_def
    using hex tw decimal_facts(6,7) [OF a] assms(1) ds
    by (auto split: option.splits)
qed

text \<open>Below \<open>2^53\<close> the double is the number itself.\<close>

lemma parseInt_string_of_nat: "n < 2 ^ 53 \<Longrightarrow> parseInt (string_of_nat n) = Num (int n)"
  using parseInt_decimal [OF string_of_nat_not_Nil, of n] string_of_nat_decimal
  by (simp add: digits_value_string_of_nat to_double_def)

lemma trim_string_of_nat: "trim (string_of_nat n) = string_of_nat n"
  using trim_decimal string_of_nat_decimal by blast

text \<open>Above it the double is the nearest one: \<open>2^53 + 1\<close> is read as \<open>2^53\<close>.\<close>

lemma parseInt_rounds: "parseInt ''9007199254740993'' = Num 9007199254740992"
proof -
  have "bit_length 9007199254740993 = 54"
    by (simp add: bit_length.simps)
  then have "to_double 9007199254740993 = Some 9007199254740992"
    by (simp add: to_double_def Let_def)
  then show ?thesis
    by (simp add: parseInt_def trimStart_def is_space1_def is_space2_def is_space3_def
        is_digit_def digit_value_def digits_value_def)
qed

text \<open>White space outside ASCII is trimmed too: here U+00A0 in front, U+FEFF and a space behind.\<close>

lemma trim_unicode:
  "trim [CHR 0xC2, CHR 0xA0, CHR ''5'', CHR 0xEF, CHR 0xBB, CHR 0xBF, CHR 0x20] = ''5''"
  by (simp add: trim_defs)

subsection \<open>Evaluating a run on a concrete input\<close>

lemma stops_at_after_two: "stops_at (after_two r) 2 r = (\<not> keeps_polling (Status r))"
  by (simp add: stops_at_def after_two_def continuing_def keeps_polling_def maxAttempts_def
      answer_def upt_rec)


section \<open>The claims\<close>

subsection \<open>The verdict of a run\<close>



subsection \<open>When the poll loop stops\<close>




subsection \<open>The cap on the status checks\<close>




subsection \<open>The outputs\<close>

text \<open>
  Claim C4 as stated fails: a run whose submission is rejected, and a run that exceeds the
  cap of 120 status checks, both fail without setting any output.
\<close>

theorem thrown_error_sets_no_output:
  "outputs (run env0 (Inl ''AccessDenied'') (always (bare ''Success'' 0))) = [] \<and>
   failed (run env0 (Inl ''AccessDenied'') (always (bare ''Success'' 0))) \<and>
   outputs (run env0 (Inr sent0) (always (bare ''InProgress'' (- 1)))) = [] \<and>
   failed (run env0 (Inr sent0) (always (bare ''InProgress'' (- 1))))"
proof -
  have "snd (run_body env0 (Inl ''AccessDenied'') (always (bare ''Success'' 0))) =
      Some ''AccessDenied''"
    by (simp add: run_body_def SSMClient_def read_inputs_env0 region_inp0 Let_def)
  from thrown_sets_no_output [OF this]
  have a: "outputs (run env0 (Inl ''AccessDenied'') (always (bare ''Success'' 0))) = []"
    "failed (run env0 (Inl ''AccessDenied'') (always (bare ''Success'' 0)))"
    by (simp_all add: failed_iff)
  have "list_all (\<lambda>i. continuing (always (bare ''InProgress'' (- 1)) i)) [0..<maxAttempts]"
    by (simp add: always_def continuing_def keeps_polling_def bare_def list_all_iff)
  from run_times_out [OF read_inputs_env0 refl _ this region_inp0, of sent0 cmd0]
  obtain pre where "run env0 (Inr sent0) (always (bare ''InProgress'' (- 1))) =
      pre @ [SetFailed ''Command execution timeout - exceeded maximum wait time'']"
    "outputs pre = []"
    by (auto simp: sent0_def)
  then have b: "outputs (run env0 (Inr sent0) (always (bare ''InProgress'' (- 1)))) = []"
    "failed (run env0 (Inr sent0) (always (bare ''InProgress'' (- 1))))"
    by (simp_all add: failed_iff trace_simps)
  from a b show ?thesis by simp
qed

text \<open>
  Claim C4, as amended. A run that ends by a thrown error (a missing input, an empty
  region, a rejected submission, a failed status check, the cap of 120 status checks)
  fails and sets no output. A run whose poll loop ends at a status check without an error, whether it then
  succeeds or fails, sets the five outputs stdout, stderr, status, status-code and
  command-id, in this order, from the last response; the outputs come after the failure
  signal for a non-empty stderr, if there is one, and directly before the last event,
  which signals the failure of the state or exit code, or logs success. Every run is of
  one of the two kinds: one that ends without a thrown error has read its inputs, made
  its client, had its submission accepted, and seen its loop end at a status check.
\<close>

theorem outputs_set_when_loop_ends:
  "(snd (run_body env send_result rs) \<noteq> None \<longrightarrow>
      outputs (run env send_result rs) = [] \<and> failed (run env send_result rs)) \<and>
   (read_inputs env = Inr inp \<and> region inp \<noteq> [] \<and> send_result = Inr sr \<and>
    Command sr = Some c \<and> stops_at rs n r \<longrightarrow>
      snd (run_body env send_result rs) = None \<and>
      (\<exists>pre.
         run env send_result rs =
           pre @
           [SetOutput ''stdout'' (JString (or_empty (StandardOutputContent r))),
            SetOutput ''stderr'' (JString (or_empty (StandardErrorContent r))),
            SetOutput ''status'' (str_val (Status r)),
            SetOutput ''status-code'' (num_val (ResponseCode r)),
            SetOutput ''command-id'' (str_val (CommandId c))] @
           [verdict (Status r) (ResponseCode r)] \<and>
         outputs pre = [] \<and>
         failure_messages pre =
           (if or_empty (StandardErrorContent r) \<noteq> [] then [''Stderr detected''] else []))) \<and>
   (snd (run_body env send_result rs) = None \<longrightarrow>
      (\<exists>inp sr c n r. read_inputs env = Inr inp \<and> region inp \<noteq> [] \<and>
         send_result = Inr sr \<and> Command sr = Some c \<and> stops_at rs n r))"
proof (intro conjI impI)
  assume "snd (run_body env send_result rs) \<noteq> None"
  then obtain e where "snd (run_body env send_result rs) = Some e" by auto
  from thrown_sets_no_output [OF this]
  show "outputs (run env send_result rs) = []" "failed (run env send_result rs)"
    by (simp_all add: failed_iff)
next
  assume h: "read_inputs env = Inr inp \<and> region inp \<noteq> [] \<and> send_result = Inr sr \<and>
    Command sr = Some c \<and> stops_at rs n r"
  then have h': "read_inputs env = Inr inp" "send_result = Inr sr" "Command sr = Some c"
    "stops_at rs n r" "region inp \<noteq> []" by simp_all
  show "snd (run_body env send_result rs) = None"
    by (rule run_body_returns [OF h'])
  let ?rep = "fst (report (CommandId c) (Status r) (Some r))"
  let ?head = "(if or_empty (StandardOutputContent r) \<noteq> []
       then [Info (or_empty (StandardOutputContent r))] else []) @
      (if or_empty (StandardErrorContent r) \<noteq> []
       then [Warning (or_empty (StandardErrorContent r)), SetFailed ''Stderr detected''] else [])"
  from run_reports [OF h'] obtain pre where pre: "run env send_result rs = pre @ ?rep"
    "failure_messages pre = []" "outputs pre = []"
    by (elim exE conjE)
  have hd: "outputs (pre @ ?head) = []"
    "failure_messages (pre @ ?head) =
       (if or_empty (StandardErrorContent r) \<noteq> [] then [''Stderr detected''] else [])"
    using pre(2,3) by (simp_all add: trace_simps)
  have "run env send_result rs = (pre @ ?head) @
           [SetOutput ''stdout'' (JString (or_empty (StandardOutputContent r))),
            SetOutput ''stderr'' (JString (or_empty (StandardErrorContent r))),
            SetOutput ''status'' (str_val (Status r)),
            SetOutput ''status-code'' (num_val (ResponseCode r)),
            SetOutput ''command-id'' (str_val (CommandId c))] @
           [verdict (Status r) (ResponseCode r)]"
    unfolding pre(1) report_events [of "CommandId c" r] by (simp only: append_assoc)
  with hd show "\<exists>pre.
         run env send_result rs =
           pre @
           [SetOutput ''stdout'' (JString (or_empty (StandardOutputContent r))),
            SetOutput ''stderr'' (JString (or_empty (StandardErrorContent r))),
            SetOutput ''status'' (str_val (Status r)),
            SetOutput ''status-code'' (num_val (ResponseCode r)),
            SetOutput ''command-id'' (str_val (CommandId c))] @
           [verdict (Status r) (ResponseCode r)] \<and>
         outputs pre = [] \<and>
         failure_messages pre =
           (if or_empty (StandardErrorContent r) \<noteq> [] then [''Stderr detected''] else [])"
    by (intro exI [of _ "pre @ ?head"] conjI)
next
  assume "snd (run_body env send_result rs) = None"
  then show "\<exists>inp sr c n r. read_inputs env = Inr inp \<and> region inp \<noteq> [] \<and>
         send_result = Inr sr \<and> Command sr = Some c \<and> stops_at rs n r"
    by (rule run_body_completes)
qed

theorem outputs_set_when_loop_ends_witness:
  "outputs (run env0 (Inl ''AccessDenied'') (always (bare ''Success'' 0))) = [] \<and>
   failed (run env0 (Inl ''AccessDenied'') (always (bare ''Success'' 0))) \<and>
   snd (run_body env0 (Inr sent0) (after_two (answer ''Failed'' 1 ''boom''))) = None \<and>
   (\<exists>pre. run env0 (Inr sent0) (after_two (answer ''Failed'' 1 ''boom'')) =
           pre @
           [SetOutput ''stdout'' (JString ''out''), SetOutput ''stderr'' (JString ''boom''),
            SetOutput ''status'' (JString ''Failed''), SetOutput ''status-code'' (JNumber 1),
            SetOutput ''command-id'' (JString ''c-1'')] @
           [SetFailed ''Command execution failed with status: Failed''] \<and>
         outputs pre = [] \<and> failure_messages pre = [''Stderr detected''])"
proof -
  have t: "snd (run_body env0 (Inl ''AccessDenied'') (always (bare ''Success'' 0))) \<noteq> None"
    by (simp add: run_body_def SSMClient_def read_inputs_env0 region_inp0 Let_def)
  have s: "stops_at (after_two (answer ''Failed'' 1 ''boom'')) 2 (answer ''Failed'' 1 ''boom'')"
    by (simp add: stops_at_after_two keeps_polling_def answer_def)
  have c: "Command sent0 = Some cmd0"
    by (simp add: sent0_def)
  from outputs_set_when_loop_ends [of env0 "Inl ''AccessDenied''" "always (bare ''Success'' 0)"] t
  have "outputs (run env0 (Inl ''AccessDenied'') (always (bare ''Success'' 0))) = [] \<and>
    failed (run env0 (Inl ''AccessDenied'') (always (bare ''Success'' 0)))"
    by blast
  moreover
  from outputs_set_when_loop_ends [of env0 "Inr sent0" "after_two (answer ''Failed'' 1 ''boom'')"
      inp0 sent0 cmd0 2 "answer ''Failed'' 1 ''boom''"] read_inputs_env0 region_inp0 s c
  have "snd (run_body env0 (Inr sent0) (after_two (answer ''Failed'' 1 ''boom''))) = None \<and>
   (\<exists>pre. run env0 (Inr sent0) (after_two (answer ''Failed'' 1 ''boom'')) =
           pre @
           [SetOutput ''stdout'' (JString ''out''), SetOutput ''stderr'' (JString ''boom''),
            SetOutput ''status'' (JString ''Failed''), SetOutput ''status-code'' (JNumber 1),
            SetOutput ''command-id'' (JString ''c-1'')] @
           [SetFailed ''Command execution failed with status: Failed''] \<and>
         outputs pre = [] \<and> failure_messages pre = [''Stderr detected''])"
    by (simp add: answer_def or_empty_def str_val_def num_val_def verdict_def tmpl_str_def
        cmd0_def)
  ultimately show ?thesis by (simp only: simp_thms)
qed

subsection \<open>A non-empty stderr\<close>

text \<open>
  Claim C5. A run that reaches the state Success with exit code 0 and a non-empty
  captured stderr is marked failed; the one failure message is \<open>Stderr detected\<close>.
  To reach a state the run has read its inputs, made its client (the region read is not
  empty) and had its submission accepted.
\<close>

theorem stderr_fails_run:
  assumes "read_inputs env = Inr inp" and "send_result = Inr sr" and "Command sr = Some c"
    and "stops_at rs n r"
    and "Status r = Some ''Success''" and "ResponseCode r = Some 0"
    and "StandardErrorContent r = Some err" and "err \<noteq> []"
    and "region inp \<noteq> []"
  shows "failed (run env send_result rs) \<and>
         failure_messages (run env send_result rs) = [''Stderr detected'']"
  unfolding failed_iff run_failure_messages [OF assms(1-4) assms(9)]
    report_failure_messages [of "CommandId c" r]
  using assms(5-8) by (simp add: or_empty_def)

theorem stderr_fails_run_witness:
  "failed (run env0 (Inr sent0) (after_two (answer ''Success'' 0 ''warning: x''))) \<and>
   failure_messages (run env0 (Inr sent0) (after_two (answer ''Success'' 0 ''warning: x''))) =
     [''Stderr detected'']"
  using stderr_fails_run [OF read_inputs_env0, of "Inr sent0" sent0 cmd0
      "after_two (answer ''Success'' 0 ''warning: x'')" 2 "answer ''Success'' 0 ''warning: x''"
      "''warning: x''"]
  by (simp add: sent0_def cmd0_def stops_at_after_two keeps_polling_def answer_def region_inp0)

subsection \<open>A missing required input\<close>

text \<open>
  Claim C6. If one of the required inputs instance-id, region and command is missing
  (not given, or empty), the whole run is one failure signal naming a missing input:
  the run has failed, and it has made no submission and no status check.
\<close>

theorem missing_input_fails_first:
  assumes "missing env ''instance-id'' \<or> missing env ''region'' \<or> missing env ''command''"
  shows "(\<exists>name \<in> set [''instance-id'', ''region'', ''command''].
            missing env name \<and>
            run env send_result rs = [SetFailed (''Input required and not supplied: '' @ name)]) \<and>
         failed (run env send_result rs) \<and>
         submissions (run env send_result rs) = [] \<and>
         status_checks (run env send_result rs) = 0"
proof -
  consider "missing env ''instance-id''"
    | "\<not> missing env ''instance-id''" "missing env ''region''"
    | "\<not> missing env ''instance-id''" "\<not> missing env ''region''" "missing env ''command''"
    using assms by blast
  then show ?thesis
  proof cases
    case 1
    then have "run env send_result rs =
        [SetFailed (''Input required and not supplied: '' @ ''instance-id'')]"
      by (auto simp: run_def run_body_def read_inputs_def getInput_def missing_def
          split: option.splits)
    with 1 show ?thesis by (simp add: trace_defs)
  next
    case 2
    then have "run env send_result rs =
        [SetFailed (''Input required and not supplied: '' @ ''region'')]"
      by (auto simp: run_def run_body_def read_inputs_def getInput_def missing_def
          split: option.splits)
    with 2 show ?thesis by (simp add: trace_defs)
  next
    case 3
    then have "run env send_result rs =
        [SetFailed (''Input required and not supplied: '' @ ''command'')]"
      by (auto simp: run_def run_body_def read_inputs_def getInput_def missing_def
          split: option.splits)
    with 3 show ?thesis by (simp add: trace_defs)
  qed
qed

theorem missing_input_fails_first_witness:
  "run (env0(''region'' := None)) (Inr sent0) (always (bare ''Success'' 0)) =
     [SetFailed ''Input required and not supplied: region'']"
  using missing_input_fails_first [of "env0(''region'' := None)" "Inr sent0"
      "always (bare ''Success'' 0)"]
  by (simp add: missing_def env0_def)

subsection \<open>A rejected submission\<close>

text \<open>
  Claim C7. If the inputs are read, the client is made (the region read is not empty),
  and the remote service rejects the submission with message \<open>e\<close>, the run logs, submits
  once, and fails at once with \<open>e\<close> as its only failure message; it makes no status check
  and does not submit again.
\<close>

theorem rejected_submission_fails:
  assumes "read_inputs env = Inr inp" and "region inp \<noteq> []"
  shows "run env (Inl e) rs =
           [Info (''Running command on instance '' @ instanceId inp @ '' in region '' @ region inp),
            Info (''Command: '' @ command inp),
            Info ''Sending command to SSM...'',
            Send (region inp) (SendCommandCommand (commandParams inp)),
            SetFailed e] \<and>
         failure_messages (run env (Inl e) rs) = [e] \<and>
         status_checks (run env (Inl e) rs) = 0 \<and>
         length (submissions (run env (Inl e) rs)) = 1"
  using assms by (simp add: run_def run_body_def SSMClient_def Let_def trace_defs)

theorem rejected_submission_fails_witness:
  "failure_messages (run env0 (Inl ''AccessDenied'') (always (bare ''Success'' 0))) =
     [''AccessDenied''] \<and>
   status_checks (run env0 (Inl ''AccessDenied'') (always (bare ''Success'' 0))) = 0 \<and>
   length (submissions (run env0 (Inl ''AccessDenied'') (always (bare ''Success'' 0)))) = 1"
  using rejected_submission_fails [OF read_inputs_env0 region_inp0, of "''AccessDenied''"
      "always (bare ''Success'' 0)"]
  by (simp add: trace_defs)

subsection \<open>The timeout input\<close>

text \<open>
  Claim C8. With the inputs read and the client made (the region read is not empty), the
  run submits the request \<open>commandParams\<close>, whose \<open>TimeoutSeconds\<close> is \<open>parseInt\<close> of the
  timeout-seconds input as \<open>core.getInput\<close> returns it, or of \<open>3600\<close> when that is empty:
  an absent or empty input gives 3600, and the decimal string of a number \<open>k\<close> below
  \<open>2^53\<close> gives \<open>k\<close>. The run makes at most 120 status checks, and giving the input any
  other value \<open>t\<close> leaves the number of status checks as it is.
\<close>

theorem timeout_goes_to_submission_only:
  assumes "read_inputs env = Inr inp" and "region inp \<noteq> []"
  shows "submissions (run env send_result rs) = [commandParams inp] \<and>
         TimeoutSeconds (commandParams inp) = parseInt (timeout inp) \<and>
         timeout inp = (if input_value env ''timeout-seconds'' \<noteq> []
                        then input_value env ''timeout-seconds'' else ''3600'') \<and>
         (missing env ''timeout-seconds'' \<longrightarrow> TimeoutSeconds (commandParams inp) = Num 3600) \<and>
         (k < 2 ^ 53 \<and> env ''timeout-seconds'' = Some (string_of_nat k) \<longrightarrow>
            TimeoutSeconds (commandParams inp) = Num (int k)) \<and>
         status_checks (run env send_result rs) \<le> 120 \<and>
         status_checks (run (env(''timeout-seconds'' := t)) send_result rs) =
           status_checks (run env send_result rs)"
proof -
  have ts: "TimeoutSeconds (commandParams inp) = parseInt (timeout inp)"
    by (simp add: commandParams_def Let_def)
  have tm: "timeout inp = (if input_value env ''timeout-seconds'' \<noteq> []
                        then input_value env ''timeout-seconds'' else ''3600'')"
    using assms(1) unfolding read_inputs_Inr by simp
  have dflt: "parseInt ''3600'' = Num 3600"
    by (simp add: parseInt_def to_double_def trimStart_def is_space1_def is_space2_def
        is_space3_def is_digit_def digit_value_def digits_value_def)
  have a: "missing env ''timeout-seconds'' \<longrightarrow> TimeoutSeconds (commandParams inp) = Num 3600"
    unfolding ts tm using dflt
    by (auto simp: missing_def input_value_def trim_Nil split: option.splits)
  have b: "k < 2 ^ 53 \<and> env ''timeout-seconds'' = Some (string_of_nat k) \<longrightarrow>
            TimeoutSeconds (commandParams inp) = Num (int k)"
    unfolding ts tm
    by (simp add: input_value_def trim_string_of_nat string_of_nat_not_Nil
        parseInt_string_of_nat)
  show ?thesis
    using run_submissions [OF assms, of send_result rs] ts tm a b
      run_status_checks_bound [of env send_result rs]
      run_status_checks_timeout [OF assms(1), of t send_result rs]
    by (simp add: maxAttempts_def)
qed

theorem timeout_goes_to_submission_only_witness:
  "submissions (run (env0(''timeout-seconds'' \<mapsto> ''60'')) (Inr sent0)
       (after_two (bare ''Success'' 0))) = [commandParams (inp0\<lparr>timeout := ''60''\<rparr>)] \<and>
   TimeoutSeconds (commandParams (inp0\<lparr>timeout := ''60''\<rparr>)) = Num 60 \<and>
   status_checks (run (env0(''timeout-seconds'' \<mapsto> ''60'')) (Inr sent0)
       (after_two (bare ''Success'' 0))) \<le> 120 \<and>
   status_checks (run (env0(''timeout-seconds'' \<mapsto> ''7200'')) (Inr sent0)
       (after_two (bare ''Success'' 0))) =
     status_checks (run (env0(''timeout-seconds'' \<mapsto> ''60'')) (Inr sent0)
       (after_two (bare ''Success'' 0))) \<and>
   TimeoutSeconds (commandParams inp0) = Num 3600"
proof -
  have r: "read_inputs (env0(''timeout-seconds'' \<mapsto> ''60'')) = Inr (inp0\<lparr>timeout := ''60''\<rparr>)"
    by (simp add: read_inputs_def getInput_def env0_def inp0_def trim_defs)
  have g: "region (inp0\<lparr>timeout := ''60''\<rparr>) \<noteq> []"
    by (simp add: inp0_def)
  have s: "(60::nat) < 2 ^ 53 \<and>
      (env0(''timeout-seconds'' \<mapsto> ''60'')) ''timeout-seconds'' = Some (string_of_nat 60)"
    by (simp add: string_of_nat.simps)
  have m: "missing env0 ''timeout-seconds''"
    by (simp add: missing_def env0_def)
  have u: "(env0(''timeout-seconds'' \<mapsto> ''60''))(''timeout-seconds'' := Some ''7200'') =
      env0(''timeout-seconds'' \<mapsto> ''7200'')"
    by simp
  note given = timeout_goes_to_submission_only [OF r g, of "Inr sent0"
      "after_two (bare ''Success'' 0)" 60 "Some ''7200''", unfolded u]
  note absent = timeout_goes_to_submission_only [OF read_inputs_env0 region_inp0, of "Inr sent0"
      "after_two (bare ''Success'' 0)" 0 None]
  from given s have "TimeoutSeconds (commandParams (inp0\<lparr>timeout := ''60''\<rparr>)) = Num (int 60)"
    by blast
  then have "TimeoutSeconds (commandParams (inp0\<lparr>timeout := ''60''\<rparr>)) = Num 60"
    by simp
  moreover from absent m have "TimeoutSeconds (commandParams inp0) = Num 3600"
    by blast
  ultimately show ?thesis using given by simp
qed

subsection \<open>The working directory\<close>

text \<open>
  Claim C9 as stated fails for an input of white space only: \<open>core.getInput\<close> returns the
  input trimmed. A working-directory input of one space is a non-empty string, and the
  parameters of the submitted request hold no entry \<open>workingDirectory\<close>.
\<close>

theorem blank_working_directory_adds_no_entry:
  "env_blank_dir ''working-directory'' = Some '' '' \<and>
   map Parameters (submissions (run env_blank_dir (Inr sent0) (always (bare ''Success'' 0)))) =
     [[(''commands'', [''ls''])]]"
proof -
  have r: "read_inputs env_blank_dir = Inr inp0"
    by (simp add: read_inputs_def getInput_def env_blank_dir_def env0_def inp0_def trim_defs)
  have "Parameters (commandParams inp0) = [(''commands'', [''ls''])]"
    by (simp add: commandParams_def inp0_def Let_def)
  with run_submissions [OF r region_inp0, of "Inr sent0" "always (bare ''Success'' 0)"]
  show ?thesis by (simp add: env_blank_dir_def)
qed

text \<open>
  Claim C9, as amended. The \<open>Parameters\<close> of the submitted request hold an entry
  \<open>workingDirectory\<close> (a one-element list holding the trimmed value) if and only if the
  working-directory input, trimmed of leading and trailing white space as
  \<open>core.getInput\<close> returns it, is a non-empty string; when the input is absent, empty or
  white space only, they hold the entry \<open>commands\<close> alone. The request is submitted when
  the inputs are read and the client is made (the region read is not empty).
\<close>

theorem working_directory_parameter:
  assumes "read_inputs env = Inr inp" and "region inp \<noteq> []"
  shows "submissions (run env send_result rs) = [commandParams inp] \<and>
         map_of (Parameters (commandParams inp)) ''workingDirectory'' =
           (if input_value env ''working-directory'' \<noteq> []
            then Some [input_value env ''working-directory''] else None) \<and>
         Parameters (commandParams inp) =
           (if input_value env ''working-directory'' \<noteq> []
            then [(''commands'', [command inp]),
                  (''workingDirectory'', [input_value env ''working-directory''])]
            else [(''commands'', [command inp])]) \<and>
         (missing env ''working-directory'' \<longrightarrow>
            Parameters (commandParams inp) = [(''commands'', [command inp])])"
proof -
  have wd: "workingDirectory inp = input_value env ''working-directory''"
    using assms(1) unfolding read_inputs_Inr by simp
  have "missing env ''working-directory'' \<longrightarrow> input_value env ''working-directory'' = []"
    by (auto simp: missing_def input_value_def trim_Nil split: option.splits)
  with wd run_submissions [OF assms, of send_result rs] show ?thesis
    by (simp add: commandParams_def Let_def)
qed

theorem working_directory_parameter_witness:
  "Parameters (commandParams (inp0\<lparr>workingDirectory := ''/tmp''\<rparr>)) =
     [(''commands'', [''ls'']), (''workingDirectory'', [''/tmp''])] \<and>
   submissions (run (env0(''working-directory'' \<mapsto> '' /tmp '')) (Inr sent0)
       (after_two (bare ''Success'' 0))) = [commandParams (inp0\<lparr>workingDirectory := ''/tmp''\<rparr>)] \<and>
   Parameters (commandParams inp0) = [(''commands'', [''ls''])]"
proof -
  have r: "read_inputs (env0(''working-directory'' \<mapsto> '' /tmp '')) =
      Inr (inp0\<lparr>workingDirectory := ''/tmp''\<rparr>)"
    by (simp add: read_inputs_def getInput_def env0_def inp0_def trim_defs)
  have g: "region (inp0\<lparr>workingDirectory := ''/tmp''\<rparr>) \<noteq> []"
    by (simp add: inp0_def)
  have v: "input_value (env0(''working-directory'' \<mapsto> '' /tmp '')) ''working-directory'' = ''/tmp''"
    by (simp add: input_value_def trim_defs)
  have m: "missing env0 ''working-directory''"
    by (simp add: missing_def env0_def)
  from working_directory_parameter [OF r g, of "Inr sent0" "after_two (bare ''Success'' 0)"] v
  have "Parameters (commandParams (inp0\<lparr>workingDirectory := ''/tmp''\<rparr>)) =
     [(''commands'', [''ls'']), (''workingDirectory'', [''/tmp''])] \<and>
   submissions (run (env0(''working-directory'' \<mapsto> '' /tmp '')) (Inr sent0)
       (after_two (bare ''Success'' 0))) = [commandParams (inp0\<lparr>workingDirectory := ''/tmp''\<rparr>)]"
    by (simp add: inp0_def)
  moreover
  from working_directory_parameter [OF read_inputs_env0 region_inp0, of "Inr sent0"
        "after_two (bare ''Success'' 0)"] m
  have "Parameters (commandParams inp0) = [(''commands'', [command inp0])]"
    by blast
  then have "Parameters (commandParams inp0) = [(''commands'', [''ls''])]"
    by (simp add: inp0_def)
  ultimately show ?thesis by (simp only: simp_thms)
qed

subsection \<open>Absent output streams\<close>

text \<open>
  Claim C10. In a run that has read its inputs, made its client (the region read is not
  empty), had its submission accepted and seen its loop end at a status check: if the
  final response carries no standard output, the stdout output is the empty string; if
  it carries no standard error, the stderr output is the empty string and the failure
  signal for a non-empty stderr is not raised.
\<close>

theorem absent_streams_are_empty:
  assumes "read_inputs env = Inr inp" and "send_result = Inr sr" and "Command sr = Some c"
    and "stops_at rs n r" and "region inp \<noteq> []"
  shows "(StandardOutputContent r = None \<longrightarrow>
            (''stdout'', JString []) \<in> set (outputs (run env send_result rs))) \<and>
         (StandardErrorContent r = None \<longrightarrow>
            (''stderr'', JString []) \<in> set (outputs (run env send_result rs)) \<and>
            ''Stderr detected'' \<notin> set (failure_messages (run env send_result rs)))"
  unfolding run_failure_messages [OF assms] run_outputs [OF assms]
    report_failure_messages [of "CommandId c" r] report_outputs [of "CommandId c" r]
  by (simp add: or_empty_def tmpl_str_def)

theorem absent_streams_are_empty_witness:
  "(''stdout'', JString []) \<in> set (outputs (run env0 (Inr sent0) (after_two (bare ''Success'' 0)))) \<and>
   (''stderr'', JString []) \<in> set (outputs (run env0 (Inr sent0) (after_two (bare ''Success'' 0)))) \<and>
   ''Stderr detected'' \<notin>
     set (failure_messages (run env0 (Inr sent0) (after_two (bare ''Success'' 0))))"
  using absent_streams_are_empty [OF read_inputs_env0, of "Inr sent0" sent0 cmd0
      "after_two (bare ''Success'' 0)" 2 "bare ''Success'' 0"]
  by (simp add: sent0_def cmd0_def stops_at_after_two keeps_polling_def bare_def region_inp0)

end
